theory Spec2Isabelle
  imports Complex_Main "HOL-Library.Multiset"
begin

section \<open>Values exchanged with the remote service\<close>

text \<open>
  The program is Python. Its integers are unbounded (\<open>int\<close>), its strings are modelled
  as \<open>string\<close>, and an \<open>Optional[T]\<close> argument is a \<open>T option\<close>. A Python float is a
  finite number, an infinity or NaN; only comparisons with integer bounds are made on it.
\<close>

datatype pyfloat = Finite real | PosInf | NegInf | NaN

datatype json =
    JNull
  | JBool bool
  | JInt int
  | JFloat pyfloat
  | JStr string
  | JList "json list"
  | JObj "(string \<times> json) list"

text \<open>A request payload is a Python \<open>dict\<close> from key names to values.\<close>

type_synonym payload = "string \<rightharpoonup> json"

section \<open>Argument builder\<close>

text \<open>
  \<^verbatim>\<open>
  def build_base_args(prompt, out_fmt=None, safety=None, safety_check=None, sync=None):
      args = {"prompt": prompt, "num_images": 1}
      if out_fmt:                   args["output_format"] = out_fmt
      if safety:                    args["safety_tolerance"] = safety
      if safety_check is not None:  args["enable_safety_checker"] = safety_check
      if sync is not None:          args["sync_mode"] = sync
      return args
  \<close>
  \<open>if out_fmt:\<close> tests Python truthiness: \<open>None\<close> and the empty string are both false.
\<close>

definition put_str :: "string \<Rightarrow> string option \<Rightarrow> payload \<Rightarrow> payload" where
  "put_str k v args =
     (case v of
        None \<Rightarrow> args
      | Some s \<Rightarrow> if s = [] then args else args(k \<mapsto> JStr s))"

definition put_bool :: "string \<Rightarrow> bool option \<Rightarrow> payload \<Rightarrow> payload" where
  "put_bool k v args = (case v of None \<Rightarrow> args | Some b \<Rightarrow> args(k \<mapsto> JBool b))"

definition build_base_args ::
  "string \<Rightarrow> string option \<Rightarrow> string option \<Rightarrow> bool option \<Rightarrow> bool option \<Rightarrow> payload" where
  "build_base_args prompt out_fmt safety safety_check sync =
     put_bool ''sync_mode'' sync
       (put_bool ''enable_safety_checker'' safety_check
         (put_str ''safety_tolerance'' safety
           (put_str ''output_format'' out_fmt
             [''prompt'' \<mapsto> JStr prompt, ''num_images'' \<mapsto> JInt 1])))"

text \<open>
  \<^verbatim>\<open>
  def add_ultra_args(args, ratio, raw):
      if ratio: args["aspect_ratio"] = ratio
      if raw:   args["raw"] = raw
      return args
  \<close>
\<close>

definition add_ultra_args :: "payload \<Rightarrow> string option \<Rightarrow> bool \<Rightarrow> payload" where
  "add_ultra_args args ratio raw =
     (let args1 = put_str ''aspect_ratio'' ratio args
      in if raw then args1(''raw'' \<mapsto> JBool raw) else args1)"

text \<open>
  \<^verbatim>\<open>
  def add_pro_args(args, size, w, h, guidance, steps):
      if w is not None and h is not None:
          args["image_size"] = {"width": w, "height": h}
      elif size:
          args["image_size"] = size
      if guidance is not None: args["guidance_scale"] = guidance
      if steps is not None:    args["num_inference_steps"] = steps
      return args
  \<close>
\<close>

definition put_size :: "string option \<Rightarrow> int option \<Rightarrow> int option \<Rightarrow> payload \<Rightarrow> payload" where
  "put_size preset w h args =
     (case w of
        Some wv \<Rightarrow>
          (case h of
             Some hv \<Rightarrow> args(''image_size'' \<mapsto> JObj [(''width'', JInt wv), (''height'', JInt hv)])
           | None \<Rightarrow> put_str ''image_size'' preset args)
      | None \<Rightarrow> put_str ''image_size'' preset args)"

definition add_pro_args ::
  "payload \<Rightarrow> string option \<Rightarrow> int option \<Rightarrow> int option \<Rightarrow> pyfloat option \<Rightarrow> int option \<Rightarrow> payload" where
  "add_pro_args args preset w h guidance steps =
     (let args1 = put_size preset w h args;
          args2 = (case guidance of None \<Rightarrow> args1 | Some g \<Rightarrow> args1(''guidance_scale'' \<mapsto> JFloat g))
      in case steps of None \<Rightarrow> args2 | Some n \<Rightarrow> args2(''num_inference_steps'' \<mapsto> JInt n))"

section \<open>Properties of the argument builder\<close>

lemma put_str_other: "k' \<noteq> k \<Longrightarrow> put_str k v args k' = args k'"
  by (simp add: put_str_def split: option.splits)

lemma put_bool_other: "k' \<noteq> k \<Longrightarrow> put_bool k v args k' = args k'"
  by (simp add: put_bool_def split: option.splits)

lemma put_str_same:
  "put_str k v args k = (case v of None \<Rightarrow> args k | Some s \<Rightarrow> if s = [] then args k else Some (JStr s))"
  by (simp add: put_str_def split: option.splits)

lemma put_bool_same:
  "put_bool k v args k = (case v of None \<Rightarrow> args k | Some b \<Rightarrow> Some (JBool b))"
  by (simp add: put_bool_def split: option.splits)

lemma base_prompt: "build_base_args p f s c y ''prompt'' = Some (JStr p)"
  by (simp add: build_base_args_def put_str_other put_bool_other)

lemma base_num_images: "build_base_args p f s c y ''num_images'' = Some (JInt 1)"
  by (simp add: build_base_args_def put_str_other put_bool_other)

lemma base_output_format:
  "build_base_args p f s c y ''output_format'' =
     (case f of None \<Rightarrow> None | Some v \<Rightarrow> if v = [] then None else Some (JStr v))"
  by (simp add: build_base_args_def put_str_other put_bool_other put_str_same split: option.splits)

lemma base_safety_tolerance:
  "build_base_args p f s c y ''safety_tolerance'' =
     (case s of None \<Rightarrow> None | Some v \<Rightarrow> if v = [] then None else Some (JStr v))"
  by (simp add: build_base_args_def put_str_other put_bool_other put_str_same split: option.splits)

lemma base_safety_checker:
  "build_base_args p f s c y ''enable_safety_checker'' = map_option JBool c"
  by (simp add: build_base_args_def put_str_other put_bool_other put_bool_same split: option.splits)

lemma base_sync_mode:
  "build_base_args p f s c y ''sync_mode'' = map_option JBool y"
  by (simp add: build_base_args_def put_str_other put_bool_other put_bool_same split: option.splits)

lemma base_other_keys:
  "k \<notin> {''prompt'', ''num_images'', ''output_format'', ''safety_tolerance'',
         ''enable_safety_checker'', ''sync_mode''} \<Longrightarrow> build_base_args p f s c y k = None"
  by (simp add: build_base_args_def put_str_other put_bool_other)

lemma base_image_size: "build_base_args p f s c y ''image_size'' = None"
  by (simp add: base_other_keys)

lemma base_raw: "build_base_args p f s c y ''raw'' = None"
  by (simp add: base_other_keys)

lemma add_ultra_raw:
  "add_ultra_args args r raw ''raw'' = (if raw then Some (JBool True) else args ''raw'')"
  by (simp add: add_ultra_args_def put_str_other)

lemma put_size_same:
  "put_size preset w h args ''image_size'' =
     (case (w, h) of
        (Some wv, Some hv) \<Rightarrow> Some (JObj [(''width'', JInt wv), (''height'', JInt hv)])
      | _ \<Rightarrow> (case preset of
                None \<Rightarrow> args ''image_size''
              | Some v \<Rightarrow> if v = [] then args ''image_size'' else Some (JStr v)))"
  by (simp add: put_size_def put_str_same split: option.splits)

lemma add_pro_image_size:
  "add_pro_args args preset w h g st ''image_size'' = put_size preset w h args ''image_size''"
  by (simp add: add_pro_args_def Let_def split: option.splits)

text \<open>
  Claim C7, as amended. The base payload always holds \<open>prompt\<close> and \<open>num_images = 1\<close>.
  The \<open>output_format\<close> and \<open>safety_tolerance\<close> keys are present exactly when the option
  is a non-empty string; the \<open>enable_safety_checker\<close> and \<open>sync_mode\<close> keys are present
  exactly when the flag is not \<open>None\<close> (a flag \<open>False\<close> is written as \<open>false\<close>). None of
  the four keys ever holds \<open>null\<close> or the empty string. On a base payload the high-fidelity
  extender yields a \<open>raw\<close> key exactly when the raw flag is true, and never the value
  \<open>false\<close>.
\<close>

theorem C7_payload_keys:
  "build_base_args p f s c y ''prompt'' = Some (JStr p)
   \<and> build_base_args p f s c y ''num_images'' = Some (JInt 1)
   \<and> ((''output_format'' \<in> dom (build_base_args p f s c y)) = (\<exists>v. f = Some v \<and> v \<noteq> []))
   \<and> ((''safety_tolerance'' \<in> dom (build_base_args p f s c y)) = (\<exists>v. s = Some v \<and> v \<noteq> []))
   \<and> ((''enable_safety_checker'' \<in> dom (build_base_args p f s c y)) = (c \<noteq> None))
   \<and> ((''sync_mode'' \<in> dom (build_base_args p f s c y)) = (y \<noteq> None))
   \<and> build_base_args p f s c y ''output_format'' \<notin> {Some JNull, Some (JStr [])}
   \<and> build_base_args p f s c y ''safety_tolerance'' \<notin> {Some JNull, Some (JStr [])}
   \<and> build_base_args p f s c y ''enable_safety_checker'' \<notin> {Some JNull, Some (JStr [])}
   \<and> build_base_args p f s c y ''sync_mode'' \<notin> {Some JNull, Some (JStr [])}
   \<and> ((''raw'' \<in> dom (add_ultra_args (build_base_args p f s c y) r raw)) = raw)
   \<and> add_ultra_args (build_base_args p f s c y) r raw ''raw'' \<noteq> Some (JBool False)"
proof -
  let ?b = "build_base_args p f s c y"
  have fmt: "(''output_format'' \<in> dom ?b) = (\<exists>v. f = Some v \<and> v \<noteq> [])"
    and fmt': "?b ''output_format'' \<notin> {Some JNull, Some (JStr [])}"
    by (auto simp: dom_def base_output_format split: option.splits if_splits)
  have tol: "(''safety_tolerance'' \<in> dom ?b) = (\<exists>v. s = Some v \<and> v \<noteq> [])"
    and tol': "?b ''safety_tolerance'' \<notin> {Some JNull, Some (JStr [])}"
    by (auto simp: dom_def base_safety_tolerance split: option.splits if_splits)
  have chk: "(''enable_safety_checker'' \<in> dom ?b) = (c \<noteq> None)"
    and chk': "?b ''enable_safety_checker'' \<notin> {Some JNull, Some (JStr [])}"
    by (auto simp: dom_def base_safety_checker)
  have syn: "(''sync_mode'' \<in> dom ?b) = (y \<noteq> None)"
    and syn': "?b ''sync_mode'' \<notin> {Some JNull, Some (JStr [])}"
    by (auto simp: dom_def base_sync_mode)
  have raw: "(''raw'' \<in> dom (add_ultra_args ?b r raw)) = raw"
    and raw': "add_ultra_args ?b r raw ''raw'' \<noteq> Some (JBool False)"
    by (auto simp: dom_def add_ultra_raw base_raw)
  from base_prompt base_num_images fmt fmt' tol tol' chk chk' syn syn' raw raw'
  show ?thesis by blast
qed

text \<open>
  Claim C7 as it is written fails: an output format that is supplied but empty is not
  \<open>None\<close>, yet the truthiness test \<open>if out_fmt:\<close> leaves its key out.
\<close>

theorem C7_counterexample:
  "\<not> ((''output_format'' \<in> dom (build_base_args ''a cat'' (Some []) None None None))
        = (Some ([] :: string) \<noteq> None))"
  by (simp add: dom_def base_output_format)

text \<open>
  Claim C3, as amended. Whatever the other options are, the \<open>image_size\<close> key of the
  extended payload is the object \<open>{width, height}\<close> when both dimensions are set (a
  preset is then ignored); otherwise it is the preset string when the preset is a
  non-empty string (also when one dimension alone is set); otherwise the key is left as
  the incoming payload had it, which for a base payload means absent. The key holds one
  value, so the two forms cannot occur together.
\<close>

theorem C3_image_size:
  "add_pro_args args preset w h g st ''image_size'' =
     (if w \<noteq> None \<and> h \<noteq> None
      then Some (JObj [(''width'', JInt (the w)), (''height'', JInt (the h))])
      else if preset \<noteq> None \<and> preset \<noteq> Some []
      then Some (JStr (the preset))
      else args ''image_size'')
   \<and> build_base_args p f s c y ''image_size'' = None"
  by (auto simp: add_pro_image_size put_size_same base_image_size split: option.splits)

text \<open>
  Claim C3 as it is written fails: a width alone is a sizing input, and yet no
  \<open>image_size\<close> key is written for it.
\<close>

theorem C3_counterexample:
  "Some (512 :: int) \<noteq> None
   \<and> add_pro_args (build_base_args ''a cat'' None None None None)
        None (Some 512) None None None ''image_size'' = None"
  by (simp add: add_pro_image_size put_size_same base_image_size)

section \<open>Option validator\<close>

text \<open>
  The option carrier is an \<open>argparse.Namespace\<close>; the validator reads its attributes
  \<open>g\<close> (a float), \<open>i\<close>, \<open>w\<close> and \<open>height\<close> (integers), each \<open>None\<close> when not given.
  The fields carry the prefix \<open>arg_\<close> here so that they do not capture variable names.
\<close>

record pro_options =
  arg_g :: "pyfloat option"
  arg_i :: "int option"
  arg_w :: "int option"
  arg_height :: "int option"

definition MIN_GUIDANCE :: int where "MIN_GUIDANCE = 1"
definition MAX_GUIDANCE :: int where "MAX_GUIDANCE = 20"
definition MIN_STEPS :: int where "MIN_STEPS = 1"
definition MAX_STEPS :: int where "MAX_STEPS = 50"
definition MIN_DIM :: int where "MIN_DIM = 256"
definition MAX_DIM :: int where "MAX_DIM = 14142"

text \<open>Python's \<open>lo <= x\<close> and \<open>x <= hi\<close> for an integer bound and a float \<open>x\<close>.\<close>

fun int_le_float :: "int \<Rightarrow> pyfloat \<Rightarrow> bool" where
  "int_le_float lo (Finite r) = (real_of_int lo \<le> r)"
| "int_le_float lo PosInf = True"
| "int_le_float lo NegInf = False"
| "int_le_float lo NaN = False"

fun float_le_int :: "pyfloat \<Rightarrow> int \<Rightarrow> bool" where
  "float_le_int (Finite r) hi = (r \<le> real_of_int hi)"
| "float_le_int PosInf hi = False"
| "float_le_int NegInf hi = True"
| "float_le_int NaN hi = False"

text \<open>\<open>bool(args.w)\<close>: \<open>None\<close> and \<open>0\<close> are false, every other integer is true.\<close>

definition truthy_int :: "int option \<Rightarrow> bool" where
  "truthy_int v = (case v of None \<Rightarrow> False | Some n \<Rightarrow> n \<noteq> 0)"

text \<open>The four \<open>raise ValueError(...)\<close> sites of the validator, in source order.\<close>

datatype value_error =
    GuidanceRange  \<comment> \<open>guidance must be between 1 and 20\<close>
  | StepsRange     \<comment> \<open>steps must be between 1 and 50\<close>
  | PairMissing    \<comment> \<open>Both -w and --height must be provided together\<close>
  | DimRange       \<comment> \<open>dimensions must be between 256 and 14142\<close>

text \<open>
  \<^verbatim>\<open>
  def validate_pro_args(args):
      if args.g is not None:
          if not MIN_GUIDANCE <= args.g <= MAX_GUIDANCE: raise ValueError(...)
      if args.i is not None:
          if not MIN_STEPS <= args.i <= MAX_STEPS: raise ValueError(...)
      if bool(args.w) != bool(args.height): raise ValueError(...)
      if args.w and args.height:
          if not (MIN_DIM <= args.w <= MAX_DIM and MIN_DIM <= args.height <= MAX_DIM):
              raise ValueError(...)
  \<close>
\<close>

definition guidance_bad :: "pyfloat option \<Rightarrow> bool" where
  "guidance_bad v =
     (case v of
        None \<Rightarrow> False
      | Some x \<Rightarrow> \<not> (int_le_float MIN_GUIDANCE x \<and> float_le_int x MAX_GUIDANCE))"

definition steps_bad :: "int option \<Rightarrow> bool" where
  "steps_bad v = (case v of None \<Rightarrow> False | Some n \<Rightarrow> \<not> (MIN_STEPS \<le> n \<and> n \<le> MAX_STEPS))"

definition dims_bad :: "int option \<Rightarrow> int option \<Rightarrow> bool" where
  "dims_bad wv hv =
     (case wv of
        None \<Rightarrow> False
      | Some a \<Rightarrow>
          (case hv of
             None \<Rightarrow> False
           | Some b \<Rightarrow>
               a \<noteq> 0 \<and> b \<noteq> 0 \<and>
               \<not> ((MIN_DIM \<le> a \<and> a \<le> MAX_DIM) \<and> (MIN_DIM \<le> b \<and> b \<le> MAX_DIM))))"

definition pair_mismatch :: "int option \<Rightarrow> int option \<Rightarrow> bool" where
  "pair_mismatch wv hv = (truthy_int wv \<noteq> truthy_int hv)"

definition validate_pro_args :: "pro_options \<Rightarrow> value_error + unit" where
  "validate_pro_args args =
     (if guidance_bad (arg_g args) then Inl GuidanceRange
      else if steps_bad (arg_i args) then Inl StepsRange
      else if pair_mismatch (arg_w args) (arg_height args) then Inl PairMissing
      else if dims_bad (arg_w args) (arg_height args) then Inl DimRange
      else Inr ())"

text \<open>The error kinds of the specification, and the kind of each raise site.\<close>

datatype error_kind = OutOfRange | MissingPair

fun kind_of :: "value_error + unit \<Rightarrow> error_kind option" where
  "kind_of (Inl GuidanceRange) = Some OutOfRange"
| "kind_of (Inl StepsRange) = Some OutOfRange"
| "kind_of (Inl DimRange) = Some OutOfRange"
| "kind_of (Inl PairMissing) = Some MissingPair"
| "kind_of (Inr u) = None"

text \<open>
  The conditions of the specification, in its words: a present guidance value outside
  \<open>[1, 20]\<close>, a present steps value outside \<open>[1, 50]\<close>, both dimensions given and one of
  them outside \<open>[256, 14142]\<close>, and one dimension supplied without the other.
\<close>

fun spec_float_inside :: "pyfloat \<Rightarrow> bool" where
  "spec_float_inside (Finite r) = (1 \<le> r \<and> r \<le> 20)"
| "spec_float_inside x = False"

definition spec_guidance_outside :: "pro_options \<Rightarrow> bool" where
  "spec_guidance_outside args = (\<exists>x. arg_g args = Some x \<and> \<not> spec_float_inside x)"

definition spec_steps_outside :: "pro_options \<Rightarrow> bool" where
  "spec_steps_outside args = (\<exists>n. arg_i args = Some n \<and> (n < 1 \<or> 50 < n))"

definition spec_dims_outside :: "pro_options \<Rightarrow> bool" where
  "spec_dims_outside args =
     (\<exists>a b. arg_w args = Some a \<and> arg_height args = Some b
        \<and> (a < 256 \<or> 14142 < a \<or> b < 256 \<or> 14142 < b))"

definition spec_one_without_other :: "pro_options \<Rightarrow> bool" where
  "spec_one_without_other args = ((arg_w args = None) \<noteq> (arg_height args = None))"

section \<open>Properties of the option validator\<close>

lemma guidance_bad_iff:
  "guidance_bad (arg_g args) = spec_guidance_outside args"
proof (cases "arg_g args")
  case None
  then show ?thesis by (simp add: guidance_bad_def spec_guidance_outside_def)
next
  case (Some x)
  then show ?thesis
    by (cases x) (simp_all add: guidance_bad_def spec_guidance_outside_def
        MIN_GUIDANCE_def MAX_GUIDANCE_def)
qed

lemma steps_bad_iff: "steps_bad (arg_i args) = spec_steps_outside args"
  by (cases "arg_i args")
     (auto simp: steps_bad_def spec_steps_outside_def MIN_STEPS_def MAX_STEPS_def)

lemma dims_bad_iff:
  assumes "arg_w args \<noteq> Some 0" and "arg_height args \<noteq> Some 0"
  shows "dims_bad (arg_w args) (arg_height args) = spec_dims_outside args"
  using assms
  by (cases "arg_w args"; cases "arg_height args")
     (auto simp: dims_bad_def spec_dims_outside_def MIN_DIM_def MAX_DIM_def)

lemma pair_iff:
  assumes "arg_w args \<noteq> Some 0" and "arg_height args \<noteq> Some 0"
  shows "pair_mismatch (arg_w args) (arg_height args) = spec_one_without_other args"
  using assms
  by (cases "arg_w args"; cases "arg_height args")
     (auto simp: pair_mismatch_def truthy_int_def spec_one_without_other_def)

lemma one_without_other_not_dims:
  "spec_one_without_other args \<Longrightarrow> \<not> spec_dims_outside args"
  by (auto simp: spec_one_without_other_def spec_dims_outside_def)

text \<open>
  Claim C2, as amended. For every standard-variant options set in which no supplied
  width or height is \<open>0\<close>: validation fails with \<open>OutOfRange\<close> exactly when a present
  guidance value is outside \<open>[1, 20]\<close> (NaN and the infinities count as outside), or a
  present steps value is outside \<open>[1, 50]\<close>, or both dimensions are given and one of them
  is outside \<open>[256, 14142]\<close>; it fails with \<open>MissingPair\<close> exactly when guidance and steps
  are in range or absent and one of width and height is supplied without the other (the
  range checks on guidance and steps come first); it returns normally exactly when none
  of these conditions holds. The boundary values pass.
\<close>

theorem C2_validate_pro_args:
  assumes "arg_w args \<noteq> Some 0" and "arg_height args \<noteq> Some 0"
  shows
    "((kind_of (validate_pro_args args) = Some OutOfRange) =
        (spec_guidance_outside args \<or> spec_steps_outside args \<or> spec_dims_outside args))
     \<and> ((kind_of (validate_pro_args args) = Some MissingPair) =
        (\<not> spec_guidance_outside args \<and> \<not> spec_steps_outside args
         \<and> spec_one_without_other args))
     \<and> ((validate_pro_args args = Inr ()) =
        (\<not> spec_guidance_outside args \<and> \<not> spec_steps_outside args
         \<and> \<not> spec_dims_outside args \<and> \<not> spec_one_without_other args))
     \<and> validate_pro_args
          \<lparr>arg_g = Some (Finite 1), arg_i = Some 1, arg_w = Some 256, arg_height = Some 14142\<rparr>
          = Inr ()
     \<and> validate_pro_args
          \<lparr>arg_g = Some (Finite 20), arg_i = Some 50, arg_w = Some 14142, arg_height = Some 256\<rparr>
          = Inr ()"
proof -
  note iffs = guidance_bad_iff [of args] steps_bad_iff [of args]
    dims_bad_iff [OF assms] pair_iff [OF assms]
  have out: "(kind_of (validate_pro_args args) = Some OutOfRange) =
      (spec_guidance_outside args \<or> spec_steps_outside args \<or> spec_dims_outside args)"
    using one_without_other_not_dims [of args]
    by (auto simp: validate_pro_args_def iffs)
  have pair: "(kind_of (validate_pro_args args) = Some MissingPair) =
      (\<not> spec_guidance_outside args \<and> \<not> spec_steps_outside args
       \<and> spec_one_without_other args)"
    by (auto simp: validate_pro_args_def iffs)
  have ok: "(validate_pro_args args = Inr ()) =
      (\<not> spec_guidance_outside args \<and> \<not> spec_steps_outside args
       \<and> \<not> spec_dims_outside args \<and> \<not> spec_one_without_other args)"
    by (auto simp: validate_pro_args_def iffs)
  have lo: "validate_pro_args
      \<lparr>arg_g = Some (Finite 1), arg_i = Some 1, arg_w = Some 256, arg_height = Some 14142\<rparr>
      = Inr ()"
    by (simp add: validate_pro_args_def guidance_bad_def steps_bad_def dims_bad_def
        pair_mismatch_def truthy_int_def MIN_GUIDANCE_def MAX_GUIDANCE_def MIN_STEPS_def MAX_STEPS_def
        MIN_DIM_def MAX_DIM_def)
  have hi: "validate_pro_args
      \<lparr>arg_g = Some (Finite 20), arg_i = Some 50, arg_w = Some 14142, arg_height = Some 256\<rparr>
      = Inr ()"
    by (simp add: validate_pro_args_def guidance_bad_def steps_bad_def dims_bad_def
        pair_mismatch_def truthy_int_def MIN_GUIDANCE_def MAX_GUIDANCE_def MIN_STEPS_def MAX_STEPS_def
        MIN_DIM_def MAX_DIM_def)
  from out pair ok lo hi show ?thesis by blast
qed

text \<open>
  The amended claim at a concrete options set, width 100 without a height and guidance
  and steps in range: the validator answers \<open>MissingPair\<close>.
\<close>

theorem C2_witness:
  "arg_w \<lparr>arg_g = Some (Finite 3.5), arg_i = Some 28, arg_w = Some 100, arg_height = None\<rparr>
     \<noteq> Some 0
   \<and> arg_height \<lparr>arg_g = Some (Finite 3.5), arg_i = Some 28, arg_w = Some 100, arg_height = None\<rparr>
     \<noteq> Some 0
   \<and> kind_of (validate_pro_args
        \<lparr>arg_g = Some (Finite 3.5), arg_i = Some 28, arg_w = Some 100, arg_height = None\<rparr>)
     = Some MissingPair"
  using C2_validate_pro_args
    [of "\<lparr>arg_g = Some (Finite 3.5), arg_i = Some 28, arg_w = Some 100, arg_height = None\<rparr>"]
  by (simp add: spec_guidance_outside_def spec_steps_outside_def spec_one_without_other_def)

text \<open>
  Claim C2 as it is written fails: with guidance 21 and a width without a height, one
  dimension is supplied without the other, yet the error is \<open>OutOfRange\<close>, because the
  guidance check is made first.
\<close>

theorem C2_counterexample:
  "\<not> ((kind_of (validate_pro_args
          \<lparr>arg_g = Some (Finite 21), arg_i = None, arg_w = Some 512, arg_height = None\<rparr>)
        = Some MissingPair)
       = spec_one_without_other
          \<lparr>arg_g = Some (Finite 21), arg_i = None, arg_w = Some 512, arg_height = None\<rparr>)"
  by (simp add: validate_pro_args_def guidance_bad_def spec_one_without_other_def
      MIN_GUIDANCE_def MAX_GUIDANCE_def)

section \<open>Media downloader\<close>

subsection \<open>Strings and paths\<close>

text \<open>
  \<open>s.split(sep)\<close> for a one-character separator: the pieces between the separators, in
  order; the result is never empty (\<open>"".split("/") == [""]\<close>).
\<close>

fun split_on :: "char \<Rightarrow> string \<Rightarrow> string list" where
  "split_on sep [] = [[]]"
| "split_on sep (c # cs) =
     (if c = sep then [] # split_on sep cs
      else (case split_on sep cs of
              [] \<Rightarrow> [[c]]
            | piece # pieces \<Rightarrow> (c # piece) # pieces))"

text \<open>\<open>str.lower()\<close> on ASCII text: the letters \<open>A\<close> to \<open>Z\<close> move to \<open>a\<close> to \<open>z\<close>.\<close>

definition lower_char :: "char \<Rightarrow> char" where
  "lower_char c =
     (case map_of (zip ''ABCDEFGHIJKLMNOPQRSTUVWXYZ'' ''abcdefghijklmnopqrstuvwxyz'') c of
        None \<Rightarrow> c
      | Some d \<Rightarrow> d)"

definition lower :: "string \<Rightarrow> string" where
  "lower s = map lower_char s"

text \<open>
  \<open>os.path.join(a, b)\<close> on POSIX: an absolute \<open>b\<close> replaces \<open>a\<close>; otherwise the two are
  joined by one slash unless \<open>a\<close> is empty or already ends in one.
\<close>

definition path_join :: "string \<Rightarrow> string \<Rightarrow> string" where
  "path_join a b =
     (if b \<noteq> [] \<and> hd b = CHR ''/'' then b
      else if a = [] \<or> last a = CHR ''/'' then a @ b
      else a @ ''/'' @ b)"

subsection \<open>Network and file effects\<close>

text \<open>
  The exceptions that the modelled code can meet. \<open>ClientError\<close> stands for any error
  raised by the HTTP client or the remote service client, \<open>OSError\<close> for a file that
  cannot be opened or written.
\<close>

datatype py_exn = KeyError | TypeError | AttributeError | ClientError | OSError

text \<open>
  A response has a status, and a body that is read by \<open>resp.read()\<close>, which gives the
  bytes or raises.
\<close>

record response =
  resp_status :: nat
  resp_body :: "py_exn + string"

text \<open>
  The surroundings of the downloader. The network answers a GET for a URL with a
  response, or the client raises. The operating system lets a path be opened for writing
  and written, or it does not: \<open>aiofiles.open(fname, 'wb')\<close> raises, for instance, when
  the directory of \<open>fname\<close> does not exist or \<open>fname\<close> names a directory.
\<close>

record environment =
  http_get :: "string \<Rightarrow> py_exn + response"
  can_write :: "string \<Rightarrow> bool"

text \<open>
  The effects of the downloader are recorded in a \<open>world\<close>: the files written (path to
  content), the directories passed to \<open>os.makedirs\<close> and the URLs requested, both in
  call order. A failure of \<open>os.makedirs\<close> is not modelled.
\<close>

record world =
  w_files :: "string \<rightharpoonup> string"
  w_dirs :: "string list"
  w_gets :: "string list"

text \<open>
  \<^verbatim>\<open>
  async def download_image(session, url, fname):
      async with session.get(url) as resp:
          if resp.status == 200:
              async with aiofiles.open(fname, 'wb') as f:
                  await f.write(await resp.read())
              return fname
      return None
  \<close>
\<close>

text \<open>
  At status 200 the file is opened first, which creates it or empties it; then the body
  is read and written. When the file cannot be opened the fetch raises and nothing is
  written; when reading the body raises, the file is left with no content.
\<close>

definition download_image ::
  "environment \<Rightarrow> string \<Rightarrow> string \<Rightarrow> world \<Rightarrow> (py_exn + string option) \<times> world" where
  "download_image env url fname w =
     (let w1 = w\<lparr>w_gets := w_gets w @ [url]\<rparr>
      in case http_get env url of
           Inl e \<Rightarrow> (Inl e, w1)
         | Inr resp \<Rightarrow>
             if resp_status resp = 200
             then (if can_write env fname
                   then (case resp_body resp of
                           Inl e \<Rightarrow> (Inl e, w1\<lparr>w_files := (w_files w1)(fname \<mapsto> [])\<rparr>)
                         | Inr content \<Rightarrow>
                             (Inr (Some fname),
                              w1\<lparr>w_files := (w_files w1)(fname \<mapsto> content)\<rparr>))
                   else (Inl OSError, w1))
             else (Inr None, w1))"

text \<open>
  \<^verbatim>\<open>
  async def download_all_images(urls_and_files):
      async with aiohttp.ClientSession() as session:
          tasks = [download_image(session, url, fname) for url, fname in urls_and_files]
          return await asyncio.gather(*tasks)
  \<close>
  \<open>gather\<close> returns the outcomes in the order of its arguments, and raises when one of
  the tasks raised. The model runs the tasks in list order and, when several raise,
  reports the first of them in list order; which one a real run reports depends on timing.
\<close>

fun run_downloads ::
  "environment \<Rightarrow> (string \<times> string) list \<Rightarrow> world \<Rightarrow> (py_exn + string option) list \<times> world" where
  "run_downloads env [] w = ([], w)"
| "run_downloads env ((url, fname) # rest) w =
     (case download_image env url fname w of
        (r, w1) \<Rightarrow> (case run_downloads env rest w1 of (rs, w2) \<Rightarrow> (r # rs, w2)))"

fun gather :: "(py_exn + 'a) list \<Rightarrow> py_exn + 'a list" where
  "gather [] = Inr []"
| "gather (Inl e # rs) = Inl e"
| "gather (Inr v # rs) = (case gather rs of Inl e \<Rightarrow> Inl e | Inr vs \<Rightarrow> Inr (v # vs))"

definition download_all_images ::
  "environment \<Rightarrow> (string \<times> string) list \<Rightarrow> world \<Rightarrow> (py_exn + string option list) \<times> world" where
  "download_all_images env urls_and_files w =
     (case run_downloads env urls_and_files w of (rs, w1) \<Rightarrow> (gather rs, w1))"

subsection \<open>Saving the media of one result\<close>

text \<open>
  A generation result is a Python \<open>dict\<close> decoded from the service's answer; the
  argument of the save operation may also be \<open>None\<close>.
\<close>

type_synonym result = "(string \<times> json) list"

text \<open>
  \<open>for img in result["images"]\<close>: a list yields its items, a string its characters, a
  dict its keys; any other value is not iterable.
\<close>

fun iterate :: "json \<Rightarrow> py_exn + json list" where
  "iterate (JList xs) = Inr xs"
| "iterate (JStr s) = Inr (map (\<lambda>c. JStr [c]) s)"
| "iterate (JObj kvs) = Inr (map (\<lambda>kv. JStr (fst kv)) kvs)"
| "iterate v = Inl TypeError"

text \<open>
  \<open>url = img["url"]\<close> followed by \<open>url.split(...)\<close>: the item must be a dict with the key
  \<open>url\<close>, and the value must be a string.
\<close>

fun url_of :: "json \<Rightarrow> py_exn + string" where
  "url_of (JObj kvs) =
     (case map_of kvs ''url'' of
        None \<Rightarrow> Inl KeyError
      | Some (JStr u) \<Rightarrow> Inr u
      | Some v \<Rightarrow> Inl AttributeError)"
| "url_of v = Inl TypeError"

text \<open>
  \<^verbatim>\<open>
  flux_id = url.split("/")[-1].split("_")[0][:8]
  ext = url.split(".")[-1].lower()
  fname = os.path.join(out_dir, f"{flux_id}.{ext}")
  \<close>
\<close>

definition flux_id_of :: "string \<Rightarrow> string" where
  "flux_id_of url = take 8 (hd (split_on CHR ''_'' (last (split_on CHR ''/'' url))))"

definition ext_of :: "string \<Rightarrow> string" where
  "ext_of url = lower (last (split_on CHR ''.'' url))"

definition fname_of :: "string \<Rightarrow> string \<Rightarrow> string" where
  "fname_of out_dir url = path_join out_dir (flux_id_of url @ ''.'' @ ext_of url)"

fun urls_and_files :: "string \<Rightarrow> json list \<Rightarrow> py_exn + (string \<times> string) list" where
  "urls_and_files out_dir [] = Inr []"
| "urls_and_files out_dir (img # imgs) =
     (case url_of img of
        Inl e \<Rightarrow> Inl e
      | Inr url \<Rightarrow>
          (case urls_and_files out_dir imgs of
             Inl e \<Rightarrow> Inl e
           | Inr rest \<Rightarrow> Inr ((url, fname_of out_dir url) # rest)))"

definition makedirs :: "string \<Rightarrow> world \<Rightarrow> world" where
  "makedirs d w = w\<lparr>w_dirs := w_dirs w @ [d]\<rparr>"

text \<open>
  \<^verbatim>\<open>
  async def save_generated_images(result, out_dir):
      if not result or "images" not in result:
          return None
      os.makedirs(out_dir, exist_ok=True)
      urls_and_files = []
      for img in result["images"]:
          ...
          urls_and_files.append((url, fname))
      downloaded = await download_all_images(urls_and_files)
      return downloaded[0] if downloaded else None
  \<close>
\<close>

definition save_generated_images ::
  "environment \<Rightarrow> result option \<Rightarrow> string \<Rightarrow> world \<Rightarrow> (py_exn + string option) \<times> world" where
  "save_generated_images env result out_dir w =
     (case result of
        None \<Rightarrow> (Inr None, w)
      | Some r \<Rightarrow>
          (case (if r = [] then None else map_of r ''images'') of
             None \<Rightarrow> (Inr None, w)
           | Some images \<Rightarrow>
               (let w1 = makedirs out_dir w
                in case iterate images of
                     Inl e \<Rightarrow> (Inl e, w1)
                   | Inr imgs \<Rightarrow>
                       (case urls_and_files out_dir imgs of
                          Inl e \<Rightarrow> (Inl e, w1)
                        | Inr pairs \<Rightarrow>
                            (case download_all_images env pairs w1 of
                               (Inl e, w2) \<Rightarrow> (Inl e, w2)
                             | (Inr downloaded, w2) \<Rightarrow>
                                 (Inr (case downloaded of [] \<Rightarrow> None | d # ds \<Rightarrow> d), w2))))))"

section \<open>Properties of the media downloader\<close>

subsection \<open>Splitting strings\<close>

lemma split_on_not_Nil: "split_on sep s \<noteq> []"
  by (induction s) (auto split: list.splits)

lemma hd_split_on: "hd (split_on sep s) = takeWhile (\<lambda>c. c \<noteq> sep) s"
  by (induction s) (auto split: list.splits simp: split_on_not_Nil)

lemma split_on_absent: "sep \<notin> set s \<Longrightarrow> split_on sep s = [s]"
  by (induction s) auto

lemma split_on_two_pieces:
  "sep \<in> set s \<Longrightarrow> \<exists>p q ps. split_on sep s = p # q # ps"
proof (induction s)
  case Nil
  then show ?case by simp
next
  case (Cons a s)
  show ?case
  proof (cases "sep \<in> set s")
    case True
    with Cons.IH obtain p q ps where "split_on sep s = p # q # ps" by blast
    then show ?thesis by simp
  next
    case False
    with Cons.prems have "a = sep" by simp
    with False show ?thesis by (simp add: split_on_absent)
  qed
qed

lemma last_split_on_Cons:
  "last (split_on sep (c # cs)) =
     (if sep \<in> set cs then last (split_on sep cs) else if c = sep then cs else c # cs)"
proof (cases "sep \<in> set cs")
  case False
  then show ?thesis by (simp add: split_on_absent)
next
  case True
  then obtain p q ps where "split_on sep cs = p # q # ps"
    using split_on_two_pieces by blast
  with True show ?thesis by simp
qed

lemma last_split_on: "last (split_on sep s) = rev (takeWhile (\<lambda>c. c \<noteq> sep) (rev s))"
proof (induction s)
  case Nil
  then show ?case by simp
next
  case (Cons c cs)
  show ?case
    unfolding last_split_on_Cons using Cons
    by (auto simp: takeWhile_append)
qed

lemma takeWhile_twice:
  "x \<in> set (takeWhile P xs) \<Longrightarrow> \<not> Q x \<Longrightarrow> takeWhile Q (takeWhile P xs) = takeWhile Q xs"
  by (induction xs) (auto split: if_splits)

lemma lower_char_slash: "(lower_char c = CHR ''/'') = (c = CHR ''/'')"
  by (auto simp: lower_char_def split: option.splits if_splits)

subsection \<open>File names\<close>

text \<open>
  The parts of a URL that the specification names: the final path segment (the text
  after the last slash), the token before the first underscore of a text, and the file
  extension (the text after the last dot of the final segment, empty when the segment
  has no dot).
\<close>

definition final_segment :: "string \<Rightarrow> string" where
  "final_segment url = rev (takeWhile (\<lambda>c. c \<noteq> CHR ''/'') (rev url))"

definition before_first_underscore :: "string \<Rightarrow> string" where
  "before_first_underscore s = takeWhile (\<lambda>c. c \<noteq> CHR ''_'') s"

definition after_last_dot :: "string \<Rightarrow> string" where
  "after_last_dot s = rev (takeWhile (\<lambda>c. c \<noteq> CHR ''.'') (rev s))"

definition spec_file_extension :: "string \<Rightarrow> string" where
  "spec_file_extension url =
     (if CHR ''.'' \<in> set (final_segment url) then after_last_dot (final_segment url) else [])"

definition spec_id :: "string \<Rightarrow> string" where
  "spec_id url = take 8 (before_first_underscore (final_segment url))"

definition spec_fname :: "string \<Rightarrow> string \<Rightarrow> string" where
  "spec_fname out_dir url = path_join out_dir (spec_id url @ ''.'' @ spec_file_extension url)"

lemma flux_id_is_spec_id: "flux_id_of url = spec_id url"
  by (simp add: flux_id_of_def spec_id_def before_first_underscore_def final_segment_def
      hd_split_on last_split_on)

lemma ext_of_segment:
  assumes "CHR ''.'' \<in> set (final_segment url)"
  shows "ext_of url = lower (spec_file_extension url)"
proof -
  from assms have "CHR ''.'' \<in> set (takeWhile (\<lambda>c. c \<noteq> CHR ''/'') (rev url))"
    by (simp add: final_segment_def)
  then have "takeWhile (\<lambda>c. c \<noteq> CHR ''.'') (takeWhile (\<lambda>c. c \<noteq> CHR ''/'') (rev url))
      = takeWhile (\<lambda>c. c \<noteq> CHR ''.'') (rev url)"
    by (rule takeWhile_twice) simp
  with assms show ?thesis
    by (simp add: ext_of_def spec_file_extension_def after_last_dot_def final_segment_def
        last_split_on)
qed

lemma final_segment_no_slash: "CHR ''/'' \<notin> set (final_segment url)"
  by (auto simp: final_segment_def dest: set_takeWhileD)

lemma spec_id_no_slash: "CHR ''/'' \<notin> set (spec_id url)"
  using final_segment_no_slash [of url]
  by (auto simp: spec_id_def before_first_underscore_def dest: in_set_takeD set_takeWhileD)

lemma lower_no_slash: "CHR ''/'' \<notin> set s \<Longrightarrow> CHR ''/'' \<notin> set (lower s)"
proof
  assume absent: "CHR ''/'' \<notin> set s" and "CHR ''/'' \<in> set (lower s)"
  then obtain c where "c \<in> set s" and "lower_char c = CHR ''/''"
    by (auto simp: lower_def)
  with absent show False by (simp add: lower_char_slash)
qed

lemma spec_file_extension_no_slash: "CHR ''/'' \<notin> set (lower (spec_file_extension url))"
proof (rule lower_no_slash)
  show "CHR ''/'' \<notin> set (spec_file_extension url)"
    using final_segment_no_slash [of url]
    by (auto simp: spec_file_extension_def after_last_dot_def dest: set_takeWhileD)
qed

lemma fname_of_with_extension:
  assumes "CHR ''.'' \<in> set (final_segment url)"
  shows "fname_of out_dir url
           = path_join out_dir (spec_id url @ ''.'' @ lower (spec_file_extension url))"
  by (simp add: fname_of_def flux_id_is_spec_id ext_of_segment [OF assms])

text \<open>
  Claim C9. The id is taken from the final path segment of the URL, as the claim says,
  but \<open>ext\<close> is the text after the last dot of the whole URL. For a URL whose final
  segment has an extension the two agree, up to the lower-casing of the extension
  (\<open>fname_of_with_extension\<close>). For the URL \<open>https://example.com/abc_def\<close>, whose final
  segment has no dot, the code takes \<open>com/abc_def\<close> from the host name as \<open>ext\<close>: the id is
  \<open>abc\<close>, the destination is \<open>out/abc.com/abc_def\<close>, a path in a subdirectory
  \<open>abc.com\<close> of the output directory, and not the name \<open>abc.\<close> with the URL's (empty)
  file extension inside the output directory.
\<close>

theorem C9_code_at_failing_input:
  "flux_id_of ''https://example.com/abc_def'' = ''abc''
   \<and> ext_of ''https://example.com/abc_def'' = ''com/abc_def''
   \<and> fname_of ''out'' ''https://example.com/abc_def'' = ''out/abc.com/abc_def''
   \<and> spec_fname ''out'' ''https://example.com/abc_def'' = ''out/abc.''
   \<and> fname_of ''out'' ''https://example.com/abc_def''
     \<noteq> spec_fname ''out'' ''https://example.com/abc_def''"
  by (simp add: fname_of_def flux_id_of_def ext_of_def path_join_def lower_def lower_char_def
      spec_fname_def spec_id_def spec_file_extension_def final_segment_def
      before_first_underscore_def)

subsection \<open>Downloads\<close>

text \<open>
  A fetch completes, that is, it returns and does not raise, when the network answers
  and, if the status is 200, the destination can be written and the body can be read.
\<close>

definition fetch_completes :: "environment \<Rightarrow> string \<Rightarrow> string \<Rightarrow> bool" where
  "fetch_completes env url fname =
     (case http_get env url of
        Inl e \<Rightarrow> False
      | Inr resp \<Rightarrow>
          if resp_status resp = 200 then can_write env fname \<and> \<not> isl (resp_body resp)
          else True)"

text \<open>The outcome of a fetch that completes, as a function of the answer.\<close>

definition outcome :: "response \<Rightarrow> string \<Rightarrow> string option" where
  "outcome resp fname = (if resp_status resp = 200 then Some fname else None)"

lemma not_isl_iff: "(\<not> isl x) = (\<exists>v. x = Inr v)"
  by (cases x) simp_all

lemma download_image_completes:
  assumes "fetch_completes env url fname"
  shows "fst (download_image env url fname w) = Inr (outcome (projr (http_get env url)) fname)"
  using assms
  by (auto simp: fetch_completes_def download_image_def outcome_def Let_def not_isl_iff
      split: sum.splits if_splits)


lemma download_image_unwritable:
  assumes "http_get env url = Inr resp" and "resp_status resp = 200"
    and "\<not> can_write env fname"
  shows "download_image env url fname w = (Inl OSError, w\<lparr>w_gets := w_gets w @ [url]\<rparr>)"
  using assms by (simp add: download_image_def Let_def)

lemma download_image_files_twice:
  "w_files (snd (download_image env url fname (snd (download_image env url fname w))))
     = w_files (snd (download_image env url fname w))"
  by (auto simp: download_image_def Let_def split: sum.splits)

lemma download_image_gets:
  "w_gets (snd (download_image env url fname w)) = w_gets w @ [url]"
  by (simp add: download_image_def Let_def split: sum.splits)

lemma download_image_dirs:
  "w_dirs (snd (download_image env url fname w)) = w_dirs w"
  by (simp add: download_image_def Let_def split: sum.splits)

lemma run_downloads_Cons:
  "run_downloads env ((url, fname) # rest) w =
     (fst (download_image env url fname w)
        # fst (run_downloads env rest (snd (download_image env url fname w))),
      snd (run_downloads env rest (snd (download_image env url fname w))))"
  by (simp split: prod.splits)

lemma fst_download_all_images:
  "fst (download_all_images env pairs w) = gather (fst (run_downloads env pairs w))"
  by (simp add: download_all_images_def split: prod.splits)

lemma snd_download_all_images:
  "snd (download_all_images env pairs w) = snd (run_downloads env pairs w)"
  by (simp add: download_all_images_def split: prod.splits)

lemma run_downloads_length: "length (fst (run_downloads env pairs w)) = length pairs"
proof (induction pairs arbitrary: w)
  case Nil
  then show ?case by simp
next
  case (Cons p pairs)
  then show ?case by (cases p) (simp only: run_downloads_Cons fst_conv length_Cons)
qed

lemma run_downloads_gets:
  "w_gets (snd (run_downloads env pairs w)) = w_gets w @ map fst pairs"
proof (induction pairs arbitrary: w)
  case Nil
  then show ?case by simp
next
  case (Cons p pairs)
  obtain url fname where p: "p = (url, fname)" by (cases p)
  show ?case
    unfolding p run_downloads_Cons snd_conv Cons.IH download_image_gets by simp
qed

lemma gather_all_Inr: "gather (map Inr vs) = Inr vs"
  by (induction vs) auto


lemma run_downloads_completes:
  assumes "\<forall>p \<in> set pairs. fetch_completes env (fst p) (snd p)"
  shows "fst (run_downloads env pairs w)
           = map (\<lambda>p. Inr (outcome (projr (http_get env (fst p))) (snd p))) pairs"
  using assms
proof (induction pairs arbitrary: w)
  case Nil
  then show ?case by simp
next
  case (Cons p pairs)
  obtain url fname where p: "p = (url, fname)" by (cases p)
  from Cons.prems p have "fetch_completes env url fname" by simp
  then have hd: "fst (download_image env url fname w)
      = Inr (outcome (projr (http_get env url)) fname)"
    by (rule download_image_completes)
  from Cons.prems have rest: "\<forall>p \<in> set pairs. fetch_completes env (fst p) (snd p)" by simp
  show ?case
    unfolding p run_downloads_Cons fst_conv hd Cons.IH [OF rest] by simp
qed

lemma download_all_images_completes:
  assumes "\<forall>p \<in> set pairs. fetch_completes env (fst p) (snd p)"
  shows "fst (download_all_images env pairs w)
           = Inr (map (\<lambda>p. outcome (projr (http_get env (fst p))) (snd p)) pairs)"
proof -
  have "map (\<lambda>p. Inr (outcome (projr (http_get env (fst p))) (snd p))) pairs
      = map Inr (map (\<lambda>p. outcome (projr (http_get env (fst p))) (snd p)) pairs)"
    by simp
  then have "gather (map (\<lambda>p. Inr (outcome (projr (http_get env (fst p))) (snd p))) pairs)
      = Inr (map (\<lambda>p. outcome (projr (http_get env (fst p))) (snd p)) pairs)"
    using gather_all_Inr [of "map (\<lambda>p. outcome (projr (http_get env (fst p))) (snd p)) pairs"]
    by metis
  then show ?thesis
    unfolding fst_download_all_images run_downloads_completes [OF assms] .
qed



lemma download_all_images_gets:
  "w_gets (snd (download_all_images env pairs w)) = w_gets w @ map fst pairs"
  by (simp only: snd_download_all_images run_downloads_gets)

text \<open>
  Claim C4, as amended. Let every fetch complete: the network answers it and, where the
  status is 200, the destination can be written and the body can be read. Then the
  concurrent download of \<open>N\<close> (url, path) pairs returns a list of exactly \<open>N\<close> outcomes,
  and the outcome at position \<open>i\<close> is determined by the answer to pair \<open>i\<close> alone: the
  destination path of pair \<open>i\<close> when the status is exactly 200, and \<open>None\<close> for every other
  status, without raising. Every URL is requested once, in list order.
\<close>

theorem C4_download_all_images:
  assumes "\<forall>p \<in> set pairs. fetch_completes env (fst p) (snd p)"
  shows
    "\<exists>outs. fst (download_all_images env pairs w) = Inr outs
       \<and> length outs = length pairs
       \<and> (\<forall>i < length pairs.
            outs ! i = (if resp_status (projr (http_get env (fst (pairs ! i)))) = 200
                        then Some (snd (pairs ! i)) else None)
            \<and> fst (download_image env (fst (pairs ! i)) (snd (pairs ! i)) w) = Inr (outs ! i))
       \<and> w_gets (snd (download_all_images env pairs w)) = w_gets w @ map fst pairs"
proof -
  let ?outs = "map (\<lambda>p. outcome (projr (http_get env (fst p))) (snd p)) pairs"
  have res: "fst (download_all_images env pairs w) = Inr ?outs"
    by (rule download_all_images_completes [OF assms])
  have len: "length ?outs = length pairs" by simp
  have pos: "\<forall>i < length pairs.
      ?outs ! i = (if resp_status (projr (http_get env (fst (pairs ! i)))) = 200
                   then Some (snd (pairs ! i)) else None)
      \<and> fst (download_image env (fst (pairs ! i)) (snd (pairs ! i)) w) = Inr (?outs ! i)"
  proof (intro allI impI)
    fix i assume i: "i < length pairs"
    then have "pairs ! i \<in> set pairs" by simp
    with assms have "fetch_completes env (fst (pairs ! i)) (snd (pairs ! i))" by blast
    from i download_image_completes [OF this, of w]
    show "?outs ! i = (if resp_status (projr (http_get env (fst (pairs ! i)))) = 200
                       then Some (snd (pairs ! i)) else None)
      \<and> fst (download_image env (fst (pairs ! i)) (snd (pairs ! i)) w) = Inr (?outs ! i)"
      by (simp add: outcome_def)
  qed
  from res len pos download_all_images_gets [of env pairs w] show ?thesis by blast
qed

text \<open>
  Surroundings for the concrete instances below: one media URL is served with status
  200, a second with status 204, every other URL with status 404; a file can be written
  when it lies directly in one of the directories \<open>out\<close> and \<open>generated/ab12cd34\<close>.
\<close>

definition demo_env :: environment where
  "demo_env =
     \<lparr>http_get = (\<lambda>url.
        if url = ''https://cdn.example.com/media/0a1b2c3d4e5f_7.PNG''
        then Inr \<lparr>resp_status = 200, resp_body = Inr ''PNG-bytes''\<rparr>
        else if url = ''https://cdn.example.com/media/ffee0011_2.png''
        then Inr \<lparr>resp_status = 204, resp_body = Inr []\<rparr>
        else Inr \<lparr>resp_status = 404, resp_body = Inr ''not found''\<rparr>),
      can_write = (\<lambda>path.
        rev (dropWhile (\<lambda>c. c \<noteq> CHR ''/'') (rev path)) \<in> {''out/'', ''generated/ab12cd34/''}
        \<and> rev (takeWhile (\<lambda>c. c \<noteq> CHR ''/'') (rev path)) \<notin> {[], ''.'', ''..''})\<rparr>"

definition demo_world :: world where
  "demo_world = \<lparr>w_files = Map.empty, w_dirs = [], w_gets = []\<rparr>"

definition demo_pairs :: "(string \<times> string) list" where
  "demo_pairs =
     [(''https://cdn.example.com/media/missing_1.png'', ''out/missing.png''),
      (''https://cdn.example.com/media/0a1b2c3d4e5f_7.PNG'', ''out/0a1b2c3d.png'')]"

text \<open>
  The amended claim on two pairs: the first fetch is refused with 404, the second is
  served and written, and the outcomes stand at the positions of their pairs.
\<close>

theorem C4_witness:
  "fst (download_all_images demo_env demo_pairs demo_world) = Inr [None, Some ''out/0a1b2c3d.png'']"
proof -
  have "\<forall>p \<in> set demo_pairs. fetch_completes demo_env (fst p) (snd p)"
    by (simp add: demo_pairs_def demo_env_def fetch_completes_def)
  from C4_download_all_images [OF this, of demo_world] obtain outs where
    res: "fst (download_all_images demo_env demo_pairs demo_world) = Inr outs" and
    len: "length outs = length demo_pairs" and
    pos: "\<forall>i < length demo_pairs.
      outs ! i = (if resp_status (projr (http_get demo_env (fst (demo_pairs ! i)))) = 200
                  then Some (snd (demo_pairs ! i)) else None)
      \<and> fst (download_image demo_env (fst (demo_pairs ! i)) (snd (demo_pairs ! i)) demo_world)
        = Inr (outs ! i)"
    by blast
  from pos have "outs ! 0 = None"
    by (simp add: demo_pairs_def demo_env_def)
  moreover from pos have "outs ! 1 = Some ''out/0a1b2c3d.png''"
    by (simp add: demo_pairs_def demo_env_def)
  moreover from len have "length outs = 2" by (simp add: demo_pairs_def)
  ultimately have "outs = [None, Some ''out/0a1b2c3d.png'']"
    by (cases outs; cases "tl outs") auto
  with res show ?thesis by simp
qed

text \<open>
  Claim C4 as it is written fails: 204 is a successful (2xx) status, and yet the fetch
  yields \<open>None\<close>, because the code tests \<open>resp.status == 200\<close>.
\<close>

theorem C4_counterexample:
  "http_get demo_env ''https://cdn.example.com/media/ffee0011_2.png''
     = Inr \<lparr>resp_status = 204, resp_body = Inr []\<rparr>
   \<and> fst (download_image demo_env ''https://cdn.example.com/media/ffee0011_2.png''
        ''out/ffee0011.png'' demo_world) = Inr None"
  by (simp add: download_image_def demo_env_def Let_def)

subsection \<open>Saving the media of one result\<close>


lemma makedirs_gets: "w_gets (makedirs d w) = w_gets w"
  by (simp add: makedirs_def)

lemma makedirs_files: "w_files (makedirs d w) = w_files w"
  by (simp add: makedirs_def)











section \<open>Request dispatcher\<close>

text \<open>
  The remote service client (\<open>fal_client\<close>) is outside the repository. Each of its calls
  returns a value or raises. The answer to a status query may change from one query to
  the next, so it depends on the number of the query (counted from 0) as well.
\<close>

record service =
  subscribe_async :: "string \<Rightarrow> payload \<Rightarrow> py_exn + result"
  run_async :: "string \<Rightarrow> payload \<Rightarrow> py_exn + result"
  submit_async :: "string \<Rightarrow> payload \<Rightarrow> py_exn + string"
  status_async :: "string \<Rightarrow> string \<Rightarrow> nat \<Rightarrow> py_exn + result"
  result_async :: "string \<Rightarrow> string \<Rightarrow> py_exn + result"

text \<open>What the poll-mode dispatcher does, in order.\<close>

datatype event =
    Submitted
  | Checked nat  \<comment> \<open>the status query with this number\<close>
  | Slept int    \<comment> \<open>\<open>asyncio.sleep\<close> for this many seconds\<close>
  | Fetched

text \<open>
  One pass through the loop body up to the test
  \<open>status["status"] == "COMPLETED"\<close>: the query raises, the answer has no \<open>status\<close> key,
  or the test is decided.
\<close>

definition check_status :: "service \<Rightarrow> string \<Rightarrow> string \<Rightarrow> nat \<Rightarrow> py_exn + bool" where
  "check_status svc endpoint rid k =
     (case status_async svc endpoint rid k of
        Inl e \<Rightarrow> Inl e
      | Inr st \<Rightarrow>
          (case map_of st ''status'' of
             None \<Rightarrow> Inl KeyError
           | Some v \<Rightarrow> Inr (v = JStr ''COMPLETED'')))"

text \<open>
  \<^verbatim>\<open>
  async def submit_request(endpoint, args, poll):
      handler = await fal_client.submit_async(endpoint, arguments=args)
      while True:
          status = await fal_client.status_async(endpoint, handler.request_id)
          if status["status"] == "COMPLETED":
              return await fal_client.result_async(endpoint, handler.request_id)
          await asyncio.sleep(poll)
  \<close>
  The loop has no bound, so it is a partial function: \<open>None\<close> means that it never
  returns and never raises.
\<close>

partial_function (option) poll_loop ::
  "service \<Rightarrow> string \<Rightarrow> string \<Rightarrow> int \<Rightarrow> nat \<Rightarrow> event list
     \<Rightarrow> ((py_exn + result) \<times> event list) option" where
  "poll_loop svc endpoint rid poll k trace =
     (if check_status svc endpoint rid k = Inr False
      then poll_loop svc endpoint rid poll (Suc k) (trace @ [Checked k, Slept poll])
      else Some
        (case check_status svc endpoint rid k of
           Inl e \<Rightarrow> (Inl e, trace @ [Checked k])
         | Inr completed \<Rightarrow> (result_async svc endpoint rid, trace @ [Checked k, Fetched])))"

definition submit_request ::
  "service \<Rightarrow> string \<Rightarrow> payload \<Rightarrow> int \<Rightarrow> ((py_exn + result) \<times> event list) option" where
  "submit_request svc endpoint args poll =
     (case submit_async svc endpoint args of
        Inl e \<Rightarrow> Some (Inl e, [Submitted])
      | Inr rid \<Rightarrow> poll_loop svc endpoint rid poll 0 [Submitted])"


section \<open>Batch orchestrator\<close>





text \<open>
  \<^verbatim>\<open>
  for i in range(count):
      task_args = base_args.copy()
      if seed is not None:
          task_args["seed"] = seed + i
      tasks.append(process_single_image(endpoint, task_args, mode))
  \<close>
\<close>

definition task_args :: "payload \<Rightarrow> int option \<Rightarrow> nat \<Rightarrow> payload" where
  "task_args base_args seed i =
     (case seed of None \<Rightarrow> base_args | Some s \<Rightarrow> base_args(''seed'' \<mapsto> JInt (s + int i)))"





section \<open>Run finalizer\<close>

text \<open>
  The output directory as the finalizer sees it: a tree of directories and regular
  files, a directory being the list of its named entries and a file its content.
\<close>

datatype node = File string | Dir "(string \<times> node) list"

text \<open>
  \<open>open(os.path.join(out_dir, "metadata.json"), "w")\<close> followed by one \<open>write\<close>: an
  existing file of that name is replaced, a missing one is created, and a directory of
  that name makes \<open>open\<close> raise.
\<close>

fun write_entry ::
  "string \<Rightarrow> string \<Rightarrow> (string \<times> node) list \<Rightarrow> py_exn + (string \<times> node) list" where
  "write_entry name content [] = Inr [(name, File content)]"
| "write_entry name content ((n, x) # es) =
     (if n = name
      then (case x of
              File old \<Rightarrow> Inr ((n, File content) # es)
            | Dir ds \<Rightarrow> Inl OSError)
      else (case write_entry name content es of
              Inl e \<Rightarrow> Inl e
            | Inr es' \<Rightarrow> Inr ((n, x) # es')))"

text \<open>
  \<^verbatim>\<open>
  for root, _, files in os.walk(out_dir):
      for file in files:
          path = os.path.join(root, file)
          if os.path.getsize(path) == 0:
              os.remove(path)
  \<close>
  \<open>os.walk\<close> visits the directory and, recursively, each of its subdirectories.
\<close>

fun sweep :: "(string \<times> node) list \<Rightarrow> (string \<times> node) list" where
  "sweep [] = []"
| "sweep ((n, File content) # es) =
     (if length content = 0 then sweep es else (n, File content) # sweep es)"
| "sweep ((n, Dir ds) # es) = (n, Dir (sweep ds)) # sweep es"

text \<open>
  \<^verbatim>\<open>
  async def cleanup(results, out_dir):
      async with aiofiles.open(os.path.join(out_dir, "metadata.json"), "w") as f:
          await f.write(json.dumps(results, indent=4))
      for root, _, files in os.walk(out_dir): ...
  \<close>
  \<open>json.dumps\<close> belongs to the Python library; it is the parameter \<open>dumps\<close>.
\<close>

definition cleanup :: "(result list \<Rightarrow> string) \<Rightarrow> result list \<Rightarrow> node \<Rightarrow> py_exn + node" where
  "cleanup dumps results out_dir =
     (case out_dir of
        File content \<Rightarrow> Inl OSError
      | Dir es \<Rightarrow>
          (case write_entry ''metadata.json'' (dumps results) es of
             Inl e \<Rightarrow> Inl e
           | Inr es' \<Rightarrow> Inr (Dir (sweep es'))))"

text \<open>Every file below a directory, with the names on the way to it and its content.\<close>

fun files_of :: "(string \<times> node) list \<Rightarrow> (string list \<times> string) list" where
  "files_of [] = []"
| "files_of ((n, File content) # es) = ([n], content) # files_of es"
| "files_of ((n, Dir ds) # es) = map (\<lambda>pc. (n # fst pc, snd pc)) (files_of ds) @ files_of es"

section \<open>Properties of the poll-mode dispatcher\<close>

text \<open>
  A status check is pending when it is answered with a status other than
  \<open>COMPLETED\<close>, and it reports completion when it is answered with \<open>COMPLETED\<close>.
\<close>

definition pending :: "service \<Rightarrow> string \<Rightarrow> string \<Rightarrow> nat \<Rightarrow> bool" where
  "pending svc endpoint rid k = (check_status svc endpoint rid k = Inr False)"

definition reports_completion :: "service \<Rightarrow> string \<Rightarrow> string \<Rightarrow> nat \<Rightarrow> bool" where
  "reports_completion svc endpoint rid k = (check_status svc endpoint rid k = Inr True)"

text \<open>The checks and sleeps of the rounds \<open>k, \<dots>, n - 1\<close>.\<close>

definition rounds :: "int \<Rightarrow> nat \<Rightarrow> nat \<Rightarrow> event list" where
  "rounds poll k n = concat (map (\<lambda>j. [Checked j, Slept poll]) [k ..< n])"

lemma rounds_empty: "rounds poll k k = []"
  by (simp add: rounds_def)

lemma rounds_first: "k < n \<Longrightarrow> rounds poll k n = [Checked k, Slept poll] @ rounds poll (Suc k) n"
  by (simp add: rounds_def upt_conv_Cons)

lemma poll_loop_completes:
  assumes "k \<le> n"
    and "\<forall>j. k \<le> j \<and> j < n \<longrightarrow> pending svc endpoint rid j"
    and "reports_completion svc endpoint rid n"
  shows "poll_loop svc endpoint rid poll k trace
           = Some (result_async svc endpoint rid, trace @ rounds poll k n @ [Checked n, Fetched])"
  using assms
proof (induction "n - k" arbitrary: k trace)
  case 0
  then have "k = n" by simp
  with "0.prems"(3) show ?case
    by (subst poll_loop.simps) (simp add: reports_completion_def rounds_empty)
next
  case (Suc d)
  then have less: "k < n" by simp
  with Suc.prems(2) have now: "check_status svc endpoint rid k = Inr False"
    by (simp add: pending_def)
  have d: "d = n - Suc k" using Suc.hyps(2) by simp
  have later: "\<forall>j. Suc k \<le> j \<and> j < n \<longrightarrow> pending svc endpoint rid j"
    using Suc.prems(2) by simp
  from less have "Suc k \<le> n" by simp
  from Suc.hyps(1) [OF d this later Suc.prems(3), of "trace @ [Checked k, Slept poll]"]
  show ?case
    by (subst poll_loop.simps) (simp add: now rounds_first [OF less])
qed

lemma poll_loop_returns_only_after_completion:
  assumes "poll_loop svc endpoint rid poll k trace = Some y"
  shows "\<exists>n \<ge> k. \<not> pending svc endpoint rid n
           \<and> ((\<exists>r. fst y = Inr r) \<longrightarrow> reports_completion svc endpoint rid n)"
proof (rule poll_loop.raw_induct
    [where P = "\<lambda>svc endpoint rid poll k trace y.
       \<exists>n \<ge> k. \<not> pending svc endpoint rid n
         \<and> ((\<exists>r. fst y = Inr r) \<longrightarrow> reports_completion svc endpoint rid n)",
     OF _ assms])
  fix f svc endpoint rid and poll :: int and k :: nat and trace :: "event list"
    and y :: "(py_exn + result) \<times> event list"
  assume IH: "\<And>svc endpoint rid poll k trace y.
      f svc endpoint rid poll k trace = Some y \<Longrightarrow>
      \<exists>n \<ge> k. \<not> pending svc endpoint rid n
        \<and> ((\<exists>r. fst y = Inr r) \<longrightarrow> reports_completion svc endpoint rid n)"
    and step: "(if check_status svc endpoint rid k = Inr False
        then f svc endpoint rid poll (Suc k) (trace @ [Checked k, Slept poll])
        else Some
          (case check_status svc endpoint rid k of
             Inl e \<Rightarrow> (Inl e, trace @ [Checked k])
           | Inr completed \<Rightarrow> (result_async svc endpoint rid, trace @ [Checked k, Fetched])))
      = Some y"
  show "\<exists>n \<ge> k. \<not> pending svc endpoint rid n
      \<and> ((\<exists>r. fst y = Inr r) \<longrightarrow> reports_completion svc endpoint rid n)"
  proof (cases "check_status svc endpoint rid k = Inr False")
    case True
    with step have "f svc endpoint rid poll (Suc k) (trace @ [Checked k, Slept poll]) = Some y"
      by simp
    from IH [OF this] obtain n where n: "Suc k \<le> n" "\<not> pending svc endpoint rid n"
      "(\<exists>r. fst y = Inr r) \<longrightarrow> reports_completion svc endpoint rid n" by blast
    from n(1) have "k \<le> n" by simp
    with n(2,3) show ?thesis by blast
  next
    case False
    with step have y: "y = (case check_status svc endpoint rid k of
        Inl e \<Rightarrow> (Inl e, trace @ [Checked k])
      | Inr completed \<Rightarrow> (result_async svc endpoint rid, trace @ [Checked k, Fetched]))"
      by simp
    have "(\<exists>r. fst y = Inr r) \<longrightarrow> reports_completion svc endpoint rid k"
    proof (cases "check_status svc endpoint rid k")
      case (Inl e)
      with y show ?thesis by simp
    next
      case (Inr completed)
      with False have "completed" by simp
      with Inr show ?thesis by (simp add: reports_completion_def)
    qed
    moreover from False have "\<not> pending svc endpoint rid k" by (simp add: pending_def)
    ultimately show ?thesis by blast
  qed
qed

lemma poll_loop_never:
  assumes "\<forall>n. pending svc endpoint rid n"
  shows "poll_loop svc endpoint rid poll k trace = None"
proof (cases "poll_loop svc endpoint rid poll k trace")
  case None
  then show ?thesis .
next
  case (Some y)
  from poll_loop_returns_only_after_completion [OF this] assms show ?thesis by blast
qed

text \<open>
  Claim C8. The poll-mode dispatcher first submits the payload. With the handle so
  obtained:
  \<^item> when the status checks \<open>0, \<dots>, n - 1\<close> are pending and check \<open>n\<close> reports completion, it
    returns the fetched final result, having slept the poll interval after each pending
    check and not after the last one;
  \<^item> when every status check is pending, it never returns;
  \<^item> whenever it returns a result, some status check reported completion.
\<close>

theorem C8_submit_request:
  assumes "submit_async svc endpoint args = Inr rid"
  shows
    "((\<forall>j < n. pending svc endpoint rid j) \<and> reports_completion svc endpoint rid n \<longrightarrow>
        submit_request svc endpoint args poll
          = Some (result_async svc endpoint rid,
                  [Submitted] @ rounds poll 0 n @ [Checked n, Fetched]))
     \<and> ((\<forall>j. pending svc endpoint rid j) \<longrightarrow> submit_request svc endpoint args poll = None)
     \<and> ((\<exists>r trace. submit_request svc endpoint args poll = Some (Inr r, trace)) \<longrightarrow>
          (\<exists>m. reports_completion svc endpoint rid m))"
proof (intro conjI impI)
  assume "(\<forall>j < n. pending svc endpoint rid j) \<and> reports_completion svc endpoint rid n"
  then have "\<forall>j. 0 \<le> j \<and> j < n \<longrightarrow> pending svc endpoint rid j"
    and fin: "reports_completion svc endpoint rid n" by simp_all
  from poll_loop_completes [OF _ this, of poll "[Submitted]"] assms
  show "submit_request svc endpoint args poll
      = Some (result_async svc endpoint rid, [Submitted] @ rounds poll 0 n @ [Checked n, Fetched])"
    by (simp add: submit_request_def)
next
  assume "\<forall>j. pending svc endpoint rid j"
  from poll_loop_never [OF this] assms
  show "submit_request svc endpoint args poll = None"
    by (simp add: submit_request_def)
next
  assume "\<exists>r trace. submit_request svc endpoint args poll = Some (Inr r, trace)"
  then obtain r trace where "poll_loop svc endpoint rid poll 0 [Submitted] = Some (Inr r, trace)"
    using assms by (auto simp: submit_request_def)
  from poll_loop_returns_only_after_completion [OF this]
  show "\<exists>m. reports_completion svc endpoint rid m" by auto
qed

text \<open>
  Two services for the concrete instances: \<open>demo_service\<close> answers the status checks 0
  and 1 with \<open>IN_PROGRESS\<close> and every later one with \<open>COMPLETED\<close>; \<open>stuck_service\<close>
  answers every status check with \<open>IN_QUEUE\<close>.
\<close>

definition demo_service :: service where
  "demo_service =
     \<lparr>subscribe_async = (\<lambda>endpoint args. Inr [(''images'', JList [])]),
      run_async = (\<lambda>endpoint args. Inl ClientError),
      submit_async = (\<lambda>endpoint args. Inr ''req-1''),
      status_async = (\<lambda>endpoint rid k.
         Inr [(''status'', JStr (if k < 2 then ''IN_PROGRESS'' else ''COMPLETED''))]),
      result_async = (\<lambda>endpoint rid. Inr [(''images'', JList []), (''seed'', JInt 7)])\<rparr>"

definition stuck_service :: service where
  "stuck_service = demo_service\<lparr>status_async := (\<lambda>endpoint rid k. Inr [(''status'', JStr ''IN_QUEUE'')])\<rparr>"

theorem C8_witness:
  "submit_request demo_service ''fal-ai/flux-pro/new'' (build_base_args ''a cat'' None None None None) 2
     = Some (Inr [(''images'', JList []), (''seed'', JInt 7)],
             [Submitted, Checked 0, Slept 2, Checked 1, Slept 2, Checked 2, Fetched])
   \<and> submit_request stuck_service ''fal-ai/flux-pro/new'' (build_base_args ''a cat'' None None None None) 2
     = None"
proof -
  let ?args = "build_base_args ''a cat'' None None None None"
  have sub: "submit_async demo_service ''fal-ai/flux-pro/new'' ?args = Inr ''req-1''"
    by (simp add: demo_service_def)
  have sub': "submit_async stuck_service ''fal-ai/flux-pro/new'' ?args = Inr ''req-1''"
    by (simp add: stuck_service_def demo_service_def)
  have pend: "\<forall>j < 2. pending demo_service ''fal-ai/flux-pro/new'' ''req-1'' j"
    by (simp add: pending_def check_status_def demo_service_def)
  have fin: "reports_completion demo_service ''fal-ai/flux-pro/new'' ''req-1'' 2"
    by (simp add: reports_completion_def check_status_def demo_service_def)
  have stuck: "\<forall>j. pending stuck_service ''fal-ai/flux-pro/new'' ''req-1'' j"
    by (simp add: pending_def check_status_def stuck_service_def demo_service_def)
  have res: "result_async demo_service ''fal-ai/flux-pro/new'' ''req-1''
      = Inr [(''images'', JList []), (''seed'', JInt 7)]"
    by (simp add: demo_service_def)
  have tr: "[Submitted] @ rounds 2 0 2 @ [Checked 2, Fetched]
      = [Submitted, Checked 0, Slept 2, Checked 1, Slept 2, Checked 2, Fetched]"
    by (simp add: rounds_def upt_conv_Cons)
  from C8_submit_request [OF sub, of 2 2] pend fin res tr
    C8_submit_request [OF sub', of 0 2] stuck
  show ?thesis by simp
qed

section \<open>Properties of the run finalizer\<close>

lemma write_entry_lookup:
  assumes "\<forall>ds. map_of es name \<noteq> Some (Dir ds)"
  shows "\<exists>es'. write_entry name content es = Inr es' \<and> map_of es' name = Some (File content)"
  using assms
proof (induction es)
  case Nil
  then show ?case by simp
next
  case (Cons e es)
  obtain n x where e: "e = (n, x)" by (cases e)
  show ?case
  proof (cases "n = name")
    case True
    with Cons.prems e obtain old where "x = File old" by (cases x) auto
    with True e show ?thesis by simp
  next
    case False
    with Cons.prems e have "\<forall>ds. map_of es name \<noteq> Some (Dir ds)" by simp
    from Cons.IH [OF this] obtain es' where
      "write_entry name content es = Inr es'" and "map_of es' name = Some (File content)"
      by blast
    with False e show ?thesis by simp
  qed
qed

lemma sweep_keeps_nonempty:
  "map_of es name = Some (File content) \<Longrightarrow> content \<noteq> [] \<Longrightarrow>
     map_of (sweep es) name = Some (File content)"
  by (induction es rule: sweep.induct) (auto split: if_splits)

lemma filter_under_prefix:
  "filter (\<lambda>pc. snd pc \<noteq> []) (map (\<lambda>pc. (n # fst pc, snd pc)) xs)
     = map (\<lambda>pc. (n # fst pc, snd pc)) (filter (\<lambda>pc. snd pc \<noteq> []) xs)"
  by (induction xs) auto

lemma files_of_sweep:
  "files_of (sweep es) = filter (\<lambda>pc. snd pc \<noteq> []) (files_of es)"
  by (induction es rule: sweep.induct) (simp_all add: filter_under_prefix)

lemma sweep_leaves_no_empty_file: "\<forall>pc \<in> set (files_of (sweep es)). snd pc \<noteq> []"
  by (simp add: files_of_sweep)

text \<open>
  Claim C6. \<open>json.dumps\<close> and \<open>json.loads\<close> are the parameters \<open>dumps\<close> and \<open>loads\<close>; of
  them it is assumed that the serialised result list is not the empty string and that
  it is read back as the result list. When no directory named \<open>metadata.json\<close> stands in
  the output directory, the finalizer succeeds; afterwards the entry \<open>metadata.json\<close> of
  the output directory is a file whose content is the serialised result list, set by one
  write, so that it deserialises to exactly that list; no file of length zero is left
  anywhere below the output directory; and the files that are left are exactly the files
  of non-zero length that were there after the write.
\<close>

theorem C6_cleanup:
  assumes "\<forall>ds. map_of es ''metadata.json'' \<noteq> Some (Dir ds)"
    and "dumps results \<noteq> []"
    and "loads (dumps results) = Some results"
  shows
    "\<exists>es'. cleanup dumps results (Dir es) = Inr (Dir es')
       \<and> (\<exists>content. map_of es' ''metadata.json'' = Some (File content)
             \<and> content = dumps results \<and> loads content = Some results)
       \<and> (\<forall>pc \<in> set (files_of es'). snd pc \<noteq> [])
       \<and> (\<exists>written. write_entry ''metadata.json'' (dumps results) es = Inr written
             \<and> files_of es' = filter (\<lambda>pc. snd pc \<noteq> []) (files_of written))"
proof -
  from write_entry_lookup [OF assms(1), of "dumps results"] obtain written where
    written: "write_entry ''metadata.json'' (dumps results) es = Inr written" and
    meta: "map_of written ''metadata.json'' = Some (File (dumps results))"
    by blast
  have run: "cleanup dumps results (Dir es) = Inr (Dir (sweep written))"
    by (simp add: cleanup_def written)
  have kept: "map_of (sweep written) ''metadata.json'' = Some (File (dumps results))"
    using meta assms(2) by (rule sweep_keeps_nonempty)
  from run kept assms(3) sweep_leaves_no_empty_file [of written] written
    files_of_sweep [of written]
  show ?thesis by blast
qed

text \<open>
  A concrete run that returned no result: \<open>json.dumps([], indent=4)\<close> is the text
  \<open>[]\<close>, which \<open>json.loads\<close> reads back as the empty list. The output directory holds a
  downloaded image, a zero-byte file, a metadata file of an earlier run and a
  subdirectory with another zero-byte file.
\<close>

definition demo_dumps :: "result list \<Rightarrow> string" where
  "demo_dumps results = (if results = [] then ''[]'' else ''[ ... ]'')"

definition demo_loads :: "string \<Rightarrow> result list option" where
  "demo_loads s = (if s = ''[]'' then Some [] else None)"

definition demo_entries :: "(string \<times> node) list" where
  "demo_entries =
     [(''0a1b2c3d.png'', File ''PNG-bytes''),
      (''ffee0011.png'', File []),
      (''metadata.json'', File ''[ ... ]''),
      (''thumbs'', Dir [(''t.png'', File [])])]"

theorem C6_witness:
  "\<exists>es'. cleanup demo_dumps [] (Dir demo_entries) = Inr (Dir es')
     \<and> map_of es' ''metadata.json'' = Some (File ''[]'')
     \<and> demo_loads ''[]'' = Some []
     \<and> files_of es' = [([''0a1b2c3d.png''], ''PNG-bytes''), ([''metadata.json''], ''[]'')]"
proof -
  have no_dir: "\<forall>ds. map_of demo_entries ''metadata.json'' \<noteq> Some (Dir ds)"
    by (simp add: demo_entries_def)
  have nonempty: "demo_dumps [] \<noteq> []" by (simp add: demo_dumps_def)
  have roundtrip: "demo_loads (demo_dumps []) = Some []"
    by (simp add: demo_dumps_def demo_loads_def)
  have written: "write_entry ''metadata.json'' (demo_dumps []) demo_entries
      = Inr [(''0a1b2c3d.png'', File ''PNG-bytes''),
             (''ffee0011.png'', File []),
             (''metadata.json'', File ''[]''),
             (''thumbs'', Dir [(''t.png'', File [])])]"
    by (simp add: demo_entries_def demo_dumps_def)
  from C6_cleanup [of demo_entries demo_dumps "[]" demo_loads, OF no_dir nonempty roundtrip]
    written
  show ?thesis by (auto simp: demo_dumps_def demo_loads_def)
qed

section \<open>Properties of the batch orchestrator\<close>





text \<open>
  What becomes of a settled request in the loop: its result is kept when the request
  returned and, if there is an output directory, the save of its media did not raise.
\<close>

definition kept :: "environment \<Rightarrow> string \<Rightarrow> py_exn + result \<Rightarrow> result option" where
  "kept env out_dir settled =
     (case settled of
        Inl e \<Rightarrow> None
      | Inr data \<Rightarrow>
          if out_dir \<noteq> []
             \<and> isl (fst (save_generated_images env (Some data) out_dir
                    \<lparr>w_files = Map.empty, w_dirs = [], w_gets = []\<rparr>))
          then None else Some data)"








lemma task_args_other:
  "k \<noteq> ''seed'' \<Longrightarrow> task_args base_args seed i k = base_args k"
  by (simp add: task_args_def split: option.splits)




end
